theory Spec2Isabelle
  imports Main "HOL-Library.AList" "HOL-Library.Multiset" "HOL-Library.Sublist"
begin

section \<open>Values, exceptions and log entries\<close>

text \<open>
  The handler of \<^verbatim>\<open>lambda_event_handler.py\<close> receives data decoded from JSON: a value is
  \<^verbatim>\<open>None\<close>, a bool, an int, a float (mantissa and exponent; no operation of the program
  looks inside one), a str, a list, or a dict with str keys. A dict is an association
  list in insertion order; \<open>map_of\<close> reads it and \<open>AList.update\<close> writes it, which keeps
  the position of a key that is present and appends a new key, as Python does.
\<close>

datatype pyval =
    PNone
  | PBool bool
  | PInt int
  | PFloat int int
  | PStr string
  | PList "pyval list"
  | PDict "(string \<times> pyval) list"

text \<open>
  Turning a value into text can fail, and so can writing it out: \<^verbatim>\<open>str\<close> raises
  ValueError for an int with more digits than the interpreter's limit (4300 unless set
  otherwise) and RecursionError for nesting deeper than the interpreter can descend, and
  \<^verbatim>\<open>print\<close> can raise these and, from the output stream, UnicodeEncodeError or OSError.
\<close>

datatype fault = ValueError | RecursionError | UnicodeEncodeError | OSError

text \<open>The exceptions the program can raise; each is a subclass of \<^verbatim>\<open>Exception\<close>,
  and \<open>KeyError\<close> carries the missing key.\<close>

datatype error = KeyError string | IndexError | AttributeError | TypeError | Raised fault

text \<open>\<open>LogError p e\<close> stands for \<^verbatim>\<open>logger.error(f"{p}{e}")\<close>. The logger's level is INFO,
  so the \<^verbatim>\<open>logger.debug\<close> call of the grouping loop emits nothing; its argument, an
  f-string, is evaluated all the same.\<close>

datatype log_entry = LogWarning string | LogError string error

section \<open>The operations of Python the program uses\<close>

text \<open>\<^verbatim>\<open>v[k]\<close> with a str key: a dict looks the key up, every other value raises TypeError.\<close>

fun getitem :: "pyval \<Rightarrow> string \<Rightarrow> error + pyval" where
  "getitem (PDict kvs) k = (case map_of kvs k of None \<Rightarrow> Inl (KeyError k) | Some v \<Rightarrow> Inr v)"
| "getitem _ k = Inl TypeError"

text \<open>\<^verbatim>\<open>v[k] = x\<close> with a str key, giving the object after the assignment.\<close>

fun setitem :: "pyval \<Rightarrow> string \<Rightarrow> pyval \<Rightarrow> error + pyval" where
  "setitem (PDict kvs) k x = Inr (PDict (AList.update k x kvs))"
| "setitem _ k x = Inl TypeError"

text \<open>\<^verbatim>\<open>v.keys()\<close>: only a dict has the method.\<close>

fun keys :: "pyval \<Rightarrow> error + string list" where
  "keys (PDict kvs) = Inr (map fst kvs)"
| "keys _ = Inl AttributeError"

text \<open>\<^verbatim>\<open>s.split(c)\<close> on a str with a one-character separator: the pieces between the
  occurrences of the separator.\<close>

function str_split :: "string \<Rightarrow> char \<Rightarrow> string list" where
  "str_split s c =
     (case dropWhile (\<lambda>x. x \<noteq> c) s of
        [] \<Rightarrow> [takeWhile (\<lambda>x. x \<noteq> c) s]
      | _ # rest \<Rightarrow> takeWhile (\<lambda>x. x \<noteq> c) s # str_split rest c)"
  by pat_completeness auto
termination
proof (relation "measure (\<lambda>(s, c). length s)")
  show "wf (measure (\<lambda>(s, c). length s))" by simp
next
  fix s :: string and c :: char and x rest
  assume "dropWhile (\<lambda>x. x \<noteq> c) s = x # rest"
  then have "length (x # rest) \<le> length s"
    by (metis length_dropWhile_le)
  then show "((rest, c), (s, c)) \<in> measure (\<lambda>(s, c). length s)" by simp
qed

declare str_split.simps [simp del]

text \<open>\<^verbatim>\<open>v.split(":")\<close>: only a str has the method.\<close>

fun split_method :: "pyval \<Rightarrow> char \<Rightarrow> error + string list" where
  "split_method (PStr s) c = Inr (str_split s c)"
| "split_method _ c = Inl AttributeError"

text \<open>\<^verbatim>\<open>xs[0]\<close> on a list.\<close>

fun index0 :: "'a list \<Rightarrow> error + 'a" where
  "index0 [] = Inl IndexError"
| "index0 (x # xs) = Inr x"

text \<open>\<^verbatim>\<open>for e in v\<close>: a list gives its elements, a str its characters, a dict its keys;
  nothing else is iterable.\<close>

fun py_iter :: "pyval \<Rightarrow> error + pyval list" where
  "py_iter (PList xs) = Inr xs"
| "py_iter (PStr s) = Inr (map (\<lambda>c. PStr [c]) s)"
| "py_iter (PDict kvs) = Inr (map (\<lambda>kv. PStr (fst kv)) kvs)"
| "py_iter _ = Inl TypeError"

section \<open>The functions of the handler\<close>

text \<open>\<^verbatim>\<open>add_type\<close> assigns into the dict it is given and returns that same dict: the value
  returned here is the state of the caller's record after the call. A KeyError is logged
  and raised again; every other exception passes through.\<close>

definition add_type_try :: "pyval \<Rightarrow> error + pyval" where
  "add_type_try event =
     (case getitem event ''name'' of
        Inl err \<Rightarrow> Inl err
      | Inr n \<Rightarrow>
          (case split_method n CHR '':'' of
             Inl err \<Rightarrow> Inl err
           | Inr parts \<Rightarrow>
               (case index0 parts of
                  Inl err \<Rightarrow> Inl err
                | Inr t \<Rightarrow> setitem event ''event_type'' (PStr t))))"

definition add_type :: "pyval \<Rightarrow> log_entry list \<times> (error + pyval)" where
  "add_type event =
     (case add_type_try event of
        Inl (KeyError k) \<Rightarrow> ([LogError ''Missing key in event: '' (KeyError k)], Inl (KeyError k))
      | r \<Rightarrow> ([], r))"

text \<open>A group is the dict \<^verbatim>\<open>{"event_type": type_name, "events": [...]}\<close>; the type name
  is a str, as the docstring of \<^verbatim>\<open>group_dict\<close> says.\<close>

record group =
  event_type :: string
  events :: "pyval list"

definition group_dict :: "string \<Rightarrow> group" where
  "group_dict type_name = \<lparr>event_type = type_name, events = []\<rparr>"

text \<open>The inner loop \<^verbatim>\<open>for g in groups\<close> for one event: \<^verbatim>\<open>e["event_type"]\<close> is read
  once per group, so with no group it is not read at all.\<close>

fun add_event :: "pyval \<Rightarrow> group list \<Rightarrow> error + group list" where
  "add_event e [] = Inr []"
| "add_event e (g # gs) =
     (case getitem e ''event_type'' of
        Inl err \<Rightarrow> Inl err
      | Inr v \<Rightarrow>
          (case add_event e gs of
             Inl err \<Rightarrow> Inl err
           | Inr gs' \<Rightarrow>
               Inr ((if v = PStr (event_type g) then g\<lparr>events := events g @ [e]\<rparr> else g) # gs')))"

text \<open>The outer loop \<^verbatim>\<open>for e in events\<close>. Each round first evaluates the f-string
  \<^verbatim>\<open>f"Processing event: {e}"\<close> of the debug call; \<open>str_raises e\<close> is the exception this
  raises in the interpreter at hand, if any.\<close>

fun add_events :: "(pyval \<Rightarrow> fault option) \<Rightarrow> pyval list \<Rightarrow> group list \<Rightarrow> error + group list" where
  "add_events str_raises [] groups = Inr groups"
| "add_events str_raises (e # es) groups =
     (case str_raises e of
        Some f \<Rightarrow> Inl (Raised f)
      | None \<Rightarrow>
          (case add_event e groups of
             Inl err \<Rightarrow> Inl err
           | Inr groups' \<Rightarrow> add_events str_raises es groups'))"

definition add_events_to_group ::
  "(pyval \<Rightarrow> fault option) \<Rightarrow> pyval list \<Rightarrow> string list \<Rightarrow> error + group list" where
  "add_events_to_group str_raises evs event_types =
     add_events str_raises evs (map group_dict event_types)"

definition validate_event :: "pyval \<Rightarrow> error + bool" where
  "validate_event event =
     (case keys event of
        Inl err \<Rightarrow> Inl err
      | Inr ks \<Rightarrow> Inr (set [''name'', ''event_id''] \<subseteq> set ks))"

text \<open>The comprehension \<^verbatim>\<open>[e for e in events if validate_event(e)]\<close>.\<close>

fun validate_events :: "pyval list \<Rightarrow> error + pyval list" where
  "validate_events [] = Inr []"
| "validate_events (e # es) =
     (case validate_event e of
        Inl err \<Rightarrow> Inl err
      | Inr ok \<Rightarrow>
          (case validate_events es of
             Inl err \<Rightarrow> Inl err
           | Inr r \<Rightarrow> Inr (if ok then e # r else r)))"

text \<open>The comprehension \<^verbatim>\<open>[add_type(e) for e in events_validate]\<close>, with what it logs.\<close>

fun add_types :: "pyval list \<Rightarrow> log_entry list \<times> (error + pyval list)" where
  "add_types [] = ([], Inr [])"
| "add_types (e # es) =
     (case add_type e of
        (l, Inl err) \<Rightarrow> (l, Inl err)
      | (l, Inr e') \<Rightarrow>
          (case add_types es of
             (l', Inl err) \<Rightarrow> (l @ l', Inl err)
           | (l', Inr r) \<Rightarrow> (l @ l', Inr (e' # r))))"

text \<open>The comprehension \<^verbatim>\<open>[e["event_type"] for e in events_with_type]\<close>. The elements go
  into a set, so a list or a dict among them raises TypeError; \<^verbatim>\<open>add_type\<close> stores a str,
  and \<open>type_names_with_type\<close> below shows that no other case is reached.\<close>

fun type_names :: "pyval list \<Rightarrow> error + string list" where
  "type_names [] = Inr []"
| "type_names (e # es) =
     (case getitem e ''event_type'' of
        Inl err \<Rightarrow> Inl err
      | Inr (PStr t) \<Rightarrow>
          (case type_names es of Inl err \<Rightarrow> Inl err | Inr ts \<Rightarrow> Inr (t # ts))
      | Inr _ \<Rightarrow> Inl TypeError)"

text \<open>What \<^verbatim>\<open>lambda_handler\<close> leaves behind: the log, the groups printed, the string returned.\<close>

record outcome =
  logged :: "log_entry list"
  printed :: "group list"
  returned :: string

text \<open>
  What the program takes from the interpreter it runs in: the order in which
  \<^verbatim>\<open>list(set(xs))\<close> lists the elements of the set built from \<open>xs\<close>, which Python does
  not fix; the exception, if any, that evaluating the f-string of the debug call raises
  for an event; and the exception, if any, that \<^verbatim>\<open>print(g)\<close> raises for a group.
\<close>

record python =
  set_order :: "string list \<Rightarrow> string list"
  debug_raises :: "pyval \<Rightarrow> fault option"
  print_raises :: "group \<Rightarrow> fault option"

text \<open>The loop \<^verbatim>\<open>for g in events_groups: print(g)\<close>: the groups printed, and the
  exception that ended the loop, if one did.\<close>

fun print_groups :: "(group \<Rightarrow> fault option) \<Rightarrow> group list \<Rightarrow> group list \<times> error option" where
  "print_groups raises [] = ([], None)"
| "print_groups raises (g # gs) =
     (case raises g of
        Some f \<Rightarrow> ([], Some (Raised f))
      | None \<Rightarrow> (case print_groups raises gs of (out, r) \<Rightarrow> (g # out, r)))"

text \<open>The body of the \<^verbatim>\<open>try\<close>: what it logs, what it prints, and the exception it
  raises, if any.\<close>

definition lambda_try :: "python \<Rightarrow> pyval \<Rightarrow> log_entry list \<times> group list \<times> error option" where
  "lambda_try py event =
     (case getitem event ''events'' of
        Inl err \<Rightarrow> ([], [], Some err)
      | Inr evs \<Rightarrow>
          (case py_iter evs of
             Inl err \<Rightarrow> ([], [], Some err)
           | Inr es \<Rightarrow>
               (case validate_events es of
                  Inl err \<Rightarrow> ([], [], Some err)
                | Inr events_validate \<Rightarrow>
                    (let w = (if length events_validate \<noteq> length es
                              then [LogWarning ''Some events failed validation and were excluded.'']
                              else [])
                     in case add_types events_validate of
                          (l, Inl err) \<Rightarrow> (w @ l, [], Some err)
                        | (l, Inr events_with_type) \<Rightarrow>
                            (case type_names events_with_type of
                               Inl err \<Rightarrow> (w @ l, [], Some err)
                             | Inr ts \<Rightarrow>
                                 (case add_events_to_group (debug_raises py) events_with_type
                                         (set_order py ts) of
                                    Inl err \<Rightarrow> (w @ l, [], Some err)
                                  | Inr events_groups \<Rightarrow>
                                      (case print_groups (print_raises py) events_groups of
                                         (out, r) \<Rightarrow> (w @ l, out, r))))))))"

definition lambda_handler :: "python \<Rightarrow> pyval \<Rightarrow> 'c \<Rightarrow> outcome" where
  "lambda_handler py event context =
     (case lambda_try py event of
        (l, out, None) \<Rightarrow> \<lparr>logged = l, printed = out, returned = ''events processed''\<rparr>
      | (l, out, Some (KeyError k)) \<Rightarrow>
          \<lparr>logged = l @ [LogError ''Missing key in event data: '' (KeyError k)],
           printed = out, returned = ''Error: Missing key in event data''\<rparr>
      | (l, out, Some err) \<Rightarrow>
          \<lparr>logged = l @ [LogError ''An unexpected error occurred: '' err],
           printed = out, returned = ''Error: An unexpected error occurred''\<rparr>)"

text \<open>The category a record carries after \<^verbatim>\<open>add_type\<close>: the value under \<^verbatim>\<open>event_type\<close>.\<close>

definition category :: "pyval \<Rightarrow> error + pyval" where
  "category e =
     (case snd (add_type e) of Inl err \<Rightarrow> Inl err | Inr e' \<Rightarrow> getitem e' ''event_type'')"

section \<open>Notions used to state the properties\<close>

text \<open>\<open>has_type t e\<close>: the test \<^verbatim>\<open>e["event_type"] == t\<close> of the grouping loop, for a str \<open>t\<close>.\<close>

definition has_type :: "string \<Rightarrow> pyval \<Rightarrow> bool" where
  "has_type t e = (getitem e ''event_type'' = Inr (PStr t))"

text \<open>The number of entries of \<^verbatim>\<open>event_types\<close> equal to the event type of \<open>e\<close>.\<close>

definition placements :: "string list \<Rightarrow> pyval \<Rightarrow> nat" where
  "placements event_types e =
     (case getitem e ''event_type'' of
        Inr (PStr t) \<Rightarrow> count_list event_types t
      | _ \<Rightarrow> 0)"

text \<open>A group after the events of \<open>es\<close> that match its type have been appended.\<close>

definition fill :: "pyval list \<Rightarrow> group \<Rightarrow> group" where
  "fill es g = g\<lparr>events := events g @ filter (has_type (event_type g)) es\<rparr>"

text \<open>The value is a dict.\<close>

definition is_dict :: "pyval \<Rightarrow> bool" where
  "is_dict e = (case e of PDict kvs \<Rightarrow> True | _ \<Rightarrow> False)"

text \<open>\<^verbatim>\<open>validate_event\<close> returns True.\<close>

definition accepted :: "pyval \<Rightarrow> bool" where
  "accepted e = (validate_event e = Inr True)"

text \<open>The value under \<^verbatim>\<open>name\<close> is a str.\<close>

definition str_name :: "pyval \<Rightarrow> bool" where
  "str_name e = (case getitem e ''name'' of Inr (PStr s) \<Rightarrow> True | _ \<Rightarrow> False)"

text \<open>The piece of the name before the first colon, for a record whose name is a str.\<close>

definition type_of :: "pyval \<Rightarrow> string" where
  "type_of e =
     (case getitem e ''name'' of
        Inr (PStr s) \<Rightarrow> takeWhile (\<lambda>x. x \<noteq> CHR '':'') s
      | _ \<Rightarrow> [])"

text \<open>A dict with \<^verbatim>\<open>event_type\<close> set to that piece: what \<^verbatim>\<open>add_type\<close> makes of the record (\<open>add_type_sound\<close>).\<close>

definition with_type :: "pyval \<Rightarrow> pyval" where
  "with_type e =
     (case e of
        PDict kvs \<Rightarrow> PDict (AList.update ''event_type'' (PStr (type_of e)) kvs)
      | _ \<Rightarrow> e)"

text \<open>A record that neither \<^verbatim>\<open>validate_event\<close> nor \<^verbatim>\<open>add_type\<close> fails on: a dict whose name, when the record is accepted, is a str.\<close>

definition sound :: "pyval \<Rightarrow> bool" where
  "sound e = (is_dict e \<and> (if accepted e then str_name e else True))"

text \<open>The warning logged when the validation excluded a record.\<close>

definition warning :: "pyval list \<Rightarrow> log_entry list" where
  "warning es =
     (if list_all accepted es then []
      else [LogWarning ''Some events failed validation and were excluded.''])"

text \<open>The groups of a batch whose records are all sound, listed in the order the interpreter gives the types.\<close>

definition groups_of :: "python \<Rightarrow> pyval list \<Rightarrow> group list" where
  "groups_of py es =
     map (\<lambda>t. \<lparr>event_type = t,
               events = map with_type (filter (\<lambda>e. type_of e = t) (filter accepted es))\<rparr>)
       (set_order py (map type_of (filter accepted es)))"

text \<open>The f-string of the debug call raises nothing for any classified record of the batch.\<close>

definition formats_ok :: "python \<Rightarrow> pyval list \<Rightarrow> bool" where
  "formats_ok py es = list_all (\<lambda>e. debug_raises py (with_type e) = None) (filter accepted es)"

text \<open>\<^verbatim>\<open>print\<close> raises nothing for any group of the batch.\<close>

definition prints_ok :: "python \<Rightarrow> pyval list \<Rightarrow> bool" where
  "prints_ok py es = list_all (\<lambda>g. print_raises py g = None) (groups_of py es)"

text \<open>A record as a run of the handler may leave it: untouched, or as \<^verbatim>\<open>add_type\<close> returned it.\<close>

definition left_by_run :: "pyval \<Rightarrow> pyval \<Rightarrow> bool" where
  "left_by_run e e' = (e' = e \<or> snd (add_type e) = Inr e')"

section \<open>Splitting and classification\<close>

lemma str_split_head: "\<exists>ws. str_split s c = takeWhile (\<lambda>x. x \<noteq> c) s # ws"
  by (subst str_split.simps) (simp split: list.split)

lemma takeWhile_before: "c \<notin> set p \<Longrightarrow> takeWhile (\<lambda>x. x \<noteq> c) (p @ c # r) = p"
  by (induction p) auto

lemma index0_str_split: "index0 (str_split s c) = Inr (takeWhile (\<lambda>x. x \<noteq> c) s)"
  using str_split_head [of s c] by auto

lemma add_type_try_dict:
  "map_of kvs ''name'' = Some (PStr s) \<Longrightarrow>
   add_type_try (PDict kvs) =
     Inr (PDict (AList.update ''event_type'' (PStr (takeWhile (\<lambda>x. x \<noteq> CHR '':'') s)) kvs))"
  by (simp add: add_type_try_def index0_str_split)

lemma add_type_dict:
  "map_of kvs ''name'' = Some (PStr s) \<Longrightarrow>
   add_type (PDict kvs) =
     ([], Inr (PDict (AList.update ''event_type'' (PStr (takeWhile (\<lambda>x. x \<noteq> CHR '':'') s)) kvs)))"
  by (simp add: add_type_def add_type_try_dict)

lemma getitem_Inr_dict:
  "getitem e k = Inr v \<Longrightarrow> \<exists>kvs. e = PDict kvs \<and> map_of kvs k = Some v"
  by (cases e) (auto split: option.splits)

lemma category_takeWhile:
  assumes "getitem e ''name'' = Inr (PStr s)"
  shows "category e = Inr (PStr (takeWhile (\<lambda>x. x \<noteq> CHR '':'') s))"
proof -
  from assms obtain kvs where e: "e = PDict kvs" and n: "map_of kvs ''name'' = Some (PStr s)"
    using getitem_Inr_dict by blast
  show ?thesis
    by (simp add: category_def e add_type_dict [OF n] update_conv')
qed

section \<open>Validation\<close>

text \<open>
  C2 (as the code has it). \<^verbatim>\<open>validate_event\<close> accepts a record exactly when the keys
  \<^verbatim>\<open>name\<close> and \<^verbatim>\<open>event_id\<close> are both among its keys; replacing the values bound to the
  keys by any others does not change the verdict.
\<close>

theorem validate_event_keys:
  "validate_event (PDict kvs) =
     Inr (''name'' \<in> fst ` set kvs \<and> ''event_id'' \<in> fst ` set kvs) \<and>
   validate_event (PDict (map (\<lambda>kv. (fst kv, f kv)) kvs)) = validate_event (PDict kvs)"
  by (simp add: validate_event_def image_image)

text \<open>
  C2 as the specification words it, with the key \<^verbatim>\<open>id\<close>, fails: a record holding
  \<^verbatim>\<open>name\<close> and \<^verbatim>\<open>id\<close> is turned down, and one holding \<^verbatim>\<open>name\<close> and \<^verbatim>\<open>event_id\<close> but no
  \<^verbatim>\<open>id\<close> is accepted.
\<close>

theorem validate_event_id_counterexample:
  "validate_event (PDict [(''name'', PStr ''order:placed''), (''id'', PInt 8)]) = Inr False \<and>
   validate_event (PDict [(''name'', PStr ''order:placed''), (''event_id'', PInt 8)]) = Inr True"
  by (simp add: validate_event_def)

section \<open>The category of an accepted record\<close>

text \<open>
  C4. For an accepted record whose \<^verbatim>\<open>name\<close> is the str \<open>s\<close>: when \<open>s\<close> has no colon the
  category is \<open>s\<close> itself, and when \<open>s\<close> is \<open>p\<close>, a colon and a rest, with no colon in
  \<open>p\<close>, the category is \<open>p\<close>. Neither case is an error.
\<close>

theorem add_type_category:
  assumes "validate_event e = Inr True" and "getitem e ''name'' = Inr (PStr s)"
  shows "(CHR '':'' \<notin> set s \<longrightarrow> category e = Inr (PStr s)) \<and>
         (\<forall>p r. s = p @ CHR '':'' # r \<and> CHR '':'' \<notin> set p \<longrightarrow> category e = Inr (PStr p))"
proof (intro conjI allI impI)
  assume "CHR '':'' \<notin> set s"
  then have "takeWhile (\<lambda>x. x \<noteq> CHR '':'') s = s"
    by (auto simp: takeWhile_eq_all_conv)
  then show "category e = Inr (PStr s)"
    using category_takeWhile [OF assms(2)] by simp
next
  fix p r
  assume "s = p @ CHR '':'' # r \<and> CHR '':'' \<notin> set p"
  then have "takeWhile (\<lambda>x. x \<noteq> CHR '':'') s = p"
    by (simp add: takeWhile_before)
  then show "category e = Inr (PStr p)"
    using category_takeWhile [OF assms(2)] by simp
qed

theorem add_type_category_witness:
  "validate_event (PDict [(''name'', PStr ''standalone''), (''event_id'', PInt 2)]) = Inr True \<and>
   category (PDict [(''name'', PStr ''standalone''), (''event_id'', PInt 2)]) =
     Inr (PStr ''standalone'') \<and>
   validate_event (PDict [(''name'', PStr ''user:created:x''), (''event_id'', PInt 1)]) = Inr True \<and>
   category (PDict [(''name'', PStr ''user:created:x''), (''event_id'', PInt 1)]) =
     Inr (PStr ''user'')"
proof -
  let ?d = "PDict [(''name'', PStr ''standalone''), (''event_id'', PInt 2)]"
  let ?u = "PDict [(''name'', PStr ''user:created:x''), (''event_id'', PInt 1)]"
  have v1: "validate_event ?d = Inr True" by (simp add: validate_event_def)
  have g1: "getitem ?d ''name'' = Inr (PStr ''standalone'')" by simp
  have v2: "validate_event ?u = Inr True" by (simp add: validate_event_def)
  have g2: "getitem ?u ''name'' = Inr (PStr ''user:created:x'')" by simp
  have c1: "category ?d = Inr (PStr ''standalone'')"
    using add_type_category [OF v1 g1] by simp
  have "''user:created:x'' = ''user'' @ CHR '':'' # ''created:x'' \<and> CHR '':'' \<notin> set ''user''"
    by simp
  then have c2: "category ?u = Inr (PStr ''user'')"
    using add_type_category [OF v2 g2] by blast
  show ?thesis using v1 v2 c1 c2 by simp
qed

section \<open>Grouping\<close>

lemma add_event_Inr:
  "getitem e ''event_type'' = Inr v \<Longrightarrow> add_event e gs = Inr (map (fill [e]) gs)"
  by (induction gs) (auto simp: fill_def has_type_def)

lemma add_event_result:
  "add_event e gs = Inr gs' \<Longrightarrow> gs' = map (fill [e]) gs"
proof (cases "getitem e ''event_type''")
  case (Inl err)
  assume "add_event e gs = Inr gs'"
  with Inl show ?thesis by (cases gs) auto
next
  case (Inr v)
  assume "add_event e gs = Inr gs'"
  with add_event_Inr [OF Inr] show ?thesis by simp
qed

lemma fill_fill: "fill es (fill [e] g) = fill (e # es) g"
  by (simp add: fill_def)

lemma fill_Nil: "fill [] g = g"
  by (simp add: fill_def)

lemma add_events_result:
  "add_events raises es gs = Inr gs' \<Longrightarrow> gs' = map (fill es) gs"
proof (induction es arbitrary: gs)
  case Nil
  then show ?case by (simp add: fill_Nil)
next
  case (Cons e es)
  from Cons.prems obtain g1 where g1: "add_event e gs = Inr g1"
    and r: "add_events raises es g1 = Inr gs'"
    by (auto split: sum.splits option.splits)
  from add_event_result [OF g1] Cons.IH [OF r] show ?case
    by (simp add: fill_fill comp_def)
qed

lemma add_events_total:
  "\<forall>e\<in>set es. raises e = None \<and> (\<exists>v. getitem e ''event_type'' = Inr v) \<Longrightarrow>
   \<exists>gs'. add_events raises es gs = Inr gs'"
proof (induction es arbitrary: gs)
  case Nil
  then show ?case by simp
next
  case (Cons e es)
  then obtain v where "getitem e ''event_type'' = Inr v" and n: "raises e = None" by auto
  then have "add_event e gs = Inr (map (fill [e]) gs)" by (simp add: add_event_Inr)
  with Cons n show ?case by simp
qed

lemma add_events_raises:
  "raises e = Some f \<Longrightarrow> add_events raises (e # es) gs = Inl (Raised f)"
  by simp

lemma add_events_to_group_result:
  "add_events_to_group raises evs tys = Inr gs \<Longrightarrow>
   gs = map (\<lambda>t. \<lparr>event_type = t, events = filter (has_type t) evs\<rparr>) tys"
  by (auto simp: add_events_to_group_def fill_def group_dict_def dest!: add_events_result)

lemma count_list_filter:
  "count_list (filter P xs) e = (if P e then count_list xs e else 0)"
  by (induction xs) auto

lemma count_list_concat_filter:
  "count_list (concat (map (\<lambda>t. filter (has_type t) evs) tys)) e = count_list evs e * placements tys e"
proof (induction tys)
  case Nil
  then show ?case by (simp add: placements_def split: sum.splits pyval.splits)
next
  case (Cons t tys)
  have "placements (t # tys) e = (if has_type t e then 1 else 0) + placements tys e"
    by (auto simp: placements_def has_type_def split: sum.splits pyval.splits)
  with Cons show ?case
    by (simp add: count_list_filter algebra_simps)
qed

lemma add_events_to_group_raises:
  "raises e = Some f \<Longrightarrow> add_events_to_group raises (e # es) tys = Inl (Raised f)"
  by (simp add: add_events_to_group_def)

section \<open>Placement of events in groups\<close>

text \<open>
  C10. A call of \<^verbatim>\<open>add_events_to_group\<close> returns when every event carries the key
  \<^verbatim>\<open>event_type\<close> and the f-string of the debug call can be evaluated for it. Whenever
  the call returns, the groups are, one per entry of \<^verbatim>\<open>event_types\<close> and in that order
  (also for an entry no event matches, and once more for an entry listed once more),
  the entry together with the events of that type in their input order; so an event
  occurs in the groups as often as it occurs in the input times the number of entries of
  \<^verbatim>\<open>event_types\<close> equal to its event type, and an event whose type is not listed
  occurs in no group.
\<close>

theorem add_events_to_group_placement:
  "((\<forall>e\<in>set evs. raises e = None \<and> (\<exists>v. getitem e ''event_type'' = Inr v)) \<longrightarrow>
      (\<exists>gs. add_events_to_group raises evs tys = Inr gs)) \<and>
   (\<forall>gs. add_events_to_group raises evs tys = Inr gs \<longrightarrow>
      gs = map (\<lambda>t. \<lparr>event_type = t, events = filter (has_type t) evs\<rparr>) tys \<and>
      map event_type gs = tys \<and>
      (\<forall>e. count_list (concat (map events gs)) e = count_list evs e * placements tys e) \<and>
      (\<forall>e. placements tys e = 0 \<longrightarrow> e \<notin> set (concat (map events gs))))"
proof (intro conjI allI impI)
  assume "\<forall>e\<in>set evs. raises e = None \<and> (\<exists>v. getitem e ''event_type'' = Inr v)"
  then show "\<exists>gs. add_events_to_group raises evs tys = Inr gs"
    unfolding add_events_to_group_def by (rule add_events_total)
next
  fix gs assume "add_events_to_group raises evs tys = Inr gs"
  then show gs: "gs = map (\<lambda>t. \<lparr>event_type = t, events = filter (has_type t) evs\<rparr>) tys"
    by (rule add_events_to_group_result)
  show "map event_type gs = tys"
    by (simp add: gs comp_def)
  have ev: "map events gs = map (\<lambda>t. filter (has_type t) evs) tys"
    by (simp add: gs comp_def)
  show c: "count_list (concat (map events gs)) e = count_list evs e * placements tys e" for e
    by (simp only: ev count_list_concat_filter)
  show "e \<notin> set (concat (map events gs))" if "placements tys e = 0" for e
  proof -
    from c [of e] that have "count_list (concat (map events gs)) e = 0" by simp
    then show ?thesis by (simp add: count_list_0_iff)
  qed
qed

theorem add_events_to_group_placement_witness:
  "\<exists>gs. add_events_to_group (\<lambda>e. None)
          [PDict [(''event_type'', PStr ''user'')], PDict [(''event_type'', PStr ''order'')]]
          [''user'', ''video'', ''user''] = Inr gs \<and>
        gs = [\<lparr>event_type = ''user'', events = [PDict [(''event_type'', PStr ''user'')]]\<rparr>,
              \<lparr>event_type = ''video'', events = []\<rparr>,
              \<lparr>event_type = ''user'', events = [PDict [(''event_type'', PStr ''user'')]]\<rparr>] \<and>
        count_list (concat (map events gs)) (PDict [(''event_type'', PStr ''user'')]) = 2 \<and>
        PDict [(''event_type'', PStr ''order'')] \<notin> set (concat (map events gs))"
proof -
  let ?u = "PDict [(''event_type'', PStr ''user'')]"
  let ?o = "PDict [(''event_type'', PStr ''order'')]"
  let ?tys = "[''user'', ''video'', ''user'']"
  let ?r = "\<lambda>e::pyval. None::fault option"
  note th = add_events_to_group_placement [of "[?u, ?o]" ?r ?tys]
  have "\<forall>e\<in>set [?u, ?o]. ?r e = None \<and> (\<exists>v. getitem e ''event_type'' = Inr v)" by simp
  then obtain gs where gs: "add_events_to_group ?r [?u, ?o] ?tys = Inr gs"
    using th [THEN conjunct1] by fast
  note props = th [THEN conjunct2, THEN spec, THEN mp, OF gs]
  have g: "gs = map (\<lambda>t. \<lparr>event_type = t, events = filter (has_type t) [?u, ?o]\<rparr>) ?tys"
    using props [THEN conjunct1] .
  have c: "count_list (concat (map events gs)) ?u = count_list [?u, ?o] ?u * placements ?tys ?u"
    using props [THEN conjunct2, THEN conjunct2, THEN conjunct1, THEN spec] .
  have p: "placements ?tys ?u = 2" "placements ?tys ?o = 0"
    by (simp_all add: placements_def)
  have n: "?o \<notin> set (concat (map events gs))"
    using props [THEN conjunct2, THEN conjunct2, THEN conjunct2, THEN spec, THEN mp, OF p(2)] .
  have g': "gs = [\<lparr>event_type = ''user'', events = [?u]\<rparr>, \<lparr>event_type = ''video'', events = []\<rparr>,
                  \<lparr>event_type = ''user'', events = [?u]\<rparr>]"
    by (simp add: g has_type_def)
  from c p have c': "count_list (concat (map events gs)) ?u = 2" by simp
  from gs g' c' n have "add_events_to_group ?r [?u, ?o] ?tys = Inr gs \<and>
      gs = [\<lparr>event_type = ''user'', events = [?u]\<rparr>, \<lparr>event_type = ''video'', events = []\<rparr>,
            \<lparr>event_type = ''user'', events = [?u]\<rparr>] \<and>
      count_list (concat (map events gs)) ?u = 2 \<and> ?o \<notin> set (concat (map events gs))"
    by (intro conjI)
  then show ?thesis by (rule exI)
qed

section \<open>What the handler returns\<close>

text \<open>
  C9. Whatever the event, the context and the interpreter, \<^verbatim>\<open>lambda_handler\<close> returns
  one of its three strings: every exception the body can raise is caught by one of the
  two handlers.
\<close>

theorem lambda_handler_returns:
  "returned (lambda_handler py event context) = ''events processed'' \<or>
   returned (lambda_handler py event context) = ''Error: Missing key in event data'' \<or>
   returned (lambda_handler py event context) = ''Error: An unexpected error occurred''"
  by (simp add: lambda_handler_def split: prod.split option.split error.split)

section \<open>Records the handler accepts\<close>

lemma validate_event_is_dict: "is_dict e \<Longrightarrow> validate_event e = Inr (accepted e)"
  by (cases e) (auto simp: is_dict_def accepted_def validate_event_def)

lemma validate_event_not_dict: "\<not> is_dict e \<Longrightarrow> validate_event e = Inl AttributeError"
  by (cases e) (auto simp: is_dict_def validate_event_def)

lemma validate_events_dicts:
  "list_all is_dict es \<Longrightarrow> validate_events es = Inr (filter accepted es)"
  by (induction es) (auto simp: validate_event_is_dict)

lemma validate_events_not_dict:
  "\<not> list_all is_dict es \<Longrightarrow> validate_events es = Inl AttributeError"
proof (induction es)
  case Nil
  then show ?case by simp
next
  case (Cons e es)
  show ?case
  proof (cases "is_dict e")
    case True
    with Cons show ?thesis by (simp add: validate_event_is_dict)
  next
    case False
    then show ?thesis by (simp add: validate_event_not_dict)
  qed
qed

lemma add_type_sound:
  assumes "is_dict e" and "str_name e"
  shows "add_type e = ([], Inr (with_type e))"
proof -
  from assms(1) obtain kvs where e: "e = PDict kvs" by (cases e) (auto simp: is_dict_def)
  from assms(2) obtain s where n: "getitem e ''name'' = Inr (PStr s)"
    by (auto simp: str_name_def split: sum.splits pyval.splits)
  then have m: "map_of kvs ''name'' = Some (PStr s)"
    using e by (auto split: option.splits)
  show ?thesis
    using n by (simp add: e add_type_dict [OF m] with_type_def type_of_def)
qed

lemma add_type_not_str:
  assumes "accepted e" and "\<not> str_name e"
  shows "add_type e = ([], Inl AttributeError)"
proof -
  from assms(1) obtain kvs where e: "e = PDict kvs"
    by (cases e) (auto simp: accepted_def validate_event_def)
  from assms(1) e have "''name'' \<in> fst ` set kvs"
    by (auto simp: accepted_def validate_event_def)
  then obtain v where v: "map_of kvs ''name'' = Some v"
    by (metis domD dom_map_of_conv_image_fst)
  with assms(2) e have "split_method v CHR '':'' = Inl AttributeError"
    by (cases v) (auto simp: str_name_def)
  with v show ?thesis
    by (simp add: e add_type_def add_type_try_def)
qed

lemma add_types_sound:
  "list_all is_dict es \<Longrightarrow> list_all str_name es \<Longrightarrow> add_types es = ([], Inr (map with_type es))"
  by (induction es) (auto simp: add_type_sound)

lemma add_types_not_str:
  "list_all accepted es \<Longrightarrow> \<not> list_all str_name es \<Longrightarrow> add_types es = ([], Inl AttributeError)"
proof (induction es)
  case Nil
  then show ?case by simp
next
  case (Cons e es)
  then have acc: "accepted e" by simp
  then have d: "is_dict e" by (cases e) (auto simp: accepted_def validate_event_def is_dict_def)
  show ?case
  proof (cases "str_name e")
    case True
    with Cons d show ?thesis by (simp add: add_type_sound)
  next
    case False
    with acc show ?thesis by (simp add: add_type_not_str)
  qed
qed

lemma has_type_with_type: "is_dict e \<Longrightarrow> has_type t (with_type e) = (type_of e = t)"
  by (cases e) (auto simp: is_dict_def with_type_def has_type_def update_conv')

lemma type_names_with_type:
  "list_all is_dict es \<Longrightarrow> type_names (map with_type es) = Inr (map type_of es)"
proof (induction es)
  case Nil
  then show ?case by simp
next
  case (Cons e es)
  then obtain kvs where "e = PDict kvs" by (cases e) (auto simp: is_dict_def)
  with Cons show ?case
    by (simp add: with_type_def update_conv')
qed

lemma accepted_is_dict: "accepted e \<Longrightarrow> is_dict e"
  by (cases e) (auto simp: accepted_def validate_event_def is_dict_def)

lemma list_all_filter_accepted_dict: "list_all is_dict (filter accepted es)"
  by (induction es) (auto simp: accepted_is_dict)

lemma sound_str_names: "list_all sound es \<Longrightarrow> list_all str_name (filter accepted es)"
  by (induction es) (auto simp: sound_def)

lemma sound_dicts: "list_all sound es \<Longrightarrow> list_all is_dict es"
  by (induction es) (auto simp: sound_def)

lemma unsound_cases:
  "\<not> list_all sound es \<Longrightarrow> \<not> list_all is_dict es \<or> \<not> list_all str_name (filter accepted es)"
  by (induction es) (auto simp: sound_def split: if_splits)

lemma length_filter_accepted: "(length (filter accepted es) \<noteq> length es) = (\<not> list_all accepted es)"
  by (metis filter_id_conv length_filter_le list_all_iff  filter_True length_filter_less nat_neq_iff Ball_set)


lemma add_events_to_group_with_type:
  assumes "list_all is_dict es" and "list_all (\<lambda>e. raises (with_type e) = None) es"
  shows "add_events_to_group raises (map with_type es) tys =
           Inr (map (\<lambda>t. \<lparr>event_type = t, events = map with_type (filter (\<lambda>e. type_of e = t) es)\<rparr>) tys)"
proof -
  have "\<forall>e\<in>set (map with_type es). raises e = None \<and> (\<exists>v. getitem e ''event_type'' = Inr v)"
  proof
    fix e' assume "e' \<in> set (map with_type es)"
    then obtain e where e: "e \<in> set es" and e': "e' = with_type e" by auto
    with assms(1) have "is_dict e" by (simp add: list_all_iff)
    then have "has_type (type_of e) (with_type e)" by (simp add: has_type_with_type)
    moreover from e assms(2) have "raises (with_type e) = None" by (simp add: list_all_iff)
    ultimately show "raises e' = None \<and> (\<exists>v. getitem e' ''event_type'' = Inr v)"
      by (auto simp: e' has_type_def)
  qed
  then obtain gs where gs: "add_events_to_group raises (map with_type es) tys = Inr gs"
    using add_events_total unfolding add_events_to_group_def by blast
  have "filter (has_type t) (map with_type es) = map with_type (filter (\<lambda>e. type_of e = t) es)" for t
    using assms(1) by (induction es) (auto simp: has_type_with_type)
  with add_events_to_group_result [OF gs] gs show ?thesis by simp
qed

lemma add_events_first_raise:
  "\<not> list_all (\<lambda>e. raises e = None) es \<Longrightarrow>
   \<forall>e\<in>set es. \<exists>v. getitem e ''event_type'' = Inr v \<Longrightarrow>
   \<exists>f. add_events raises es gs = Inl (Raised f)"
proof (induction es arbitrary: gs)
  case Nil
  then show ?case by simp
next
  case (Cons e es)
  show ?case
  proof (cases "raises e")
    case (Some f)
    then show ?thesis by simp
  next
    case None
    from Cons.prems obtain v where "getitem e ''event_type'' = Inr v" by auto
    then have "add_event e gs = Inr (map (fill [e]) gs)" by (rule add_event_Inr)
    with None Cons show ?thesis by simp
  qed
qed

lemma add_events_to_group_with_type_raise:
  assumes "list_all is_dict es" and "\<not> list_all (\<lambda>e. raises (with_type e) = None) es"
  shows "\<exists>f. add_events_to_group raises (map with_type es) tys = Inl (Raised f)"
proof -
  have "\<forall>e\<in>set (map with_type es). \<exists>v. getitem e ''event_type'' = Inr v"
  proof
    fix e' assume "e' \<in> set (map with_type es)"
    then obtain e where e: "e \<in> set es" and e': "e' = with_type e" by auto
    with assms(1) have "is_dict e" by (simp add: list_all_iff)
    then have "has_type (type_of e) (with_type e)" by (simp add: has_type_with_type)
    then show "\<exists>v. getitem e' ''event_type'' = Inr v" by (auto simp: e' has_type_def)
  qed
  moreover from assms(2) have "\<not> list_all (\<lambda>e. raises e = None) (map with_type es)"
    by (simp add: list_all_iff)
  ultimately show ?thesis
    unfolding add_events_to_group_def by (rule add_events_first_raise [rotated])
qed

lemma print_groups_ok:
  "list_all (\<lambda>g. raises g = None) gs \<Longrightarrow> print_groups raises gs = (gs, None)"
  by (induction gs) auto

lemma print_groups_raise:
  "\<not> list_all (\<lambda>g. raises g = None) gs \<Longrightarrow>
   \<exists>out f. print_groups raises gs = (out, Some (Raised f)) \<and> strict_prefix out gs"
proof (induction gs)
  case Nil
  then show ?case by simp
next
  case (Cons g gs)
  show ?case
  proof (cases "raises g")
    case (Some f)
    then show ?thesis by simp
  next
    case None
    with Cons obtain out f where "print_groups raises gs = (out, Some (Raised f))"
      and "strict_prefix out gs" by auto
    with None show ?thesis by simp
  qed
qed

section \<open>The body of the handler\<close>

lemma lambda_try_validated:
  assumes "getitem event ''events'' = Inr evs" and "py_iter evs = Inr es" and "list_all is_dict es"
  shows "lambda_try py event =
     (case add_types (filter accepted es) of
        (l, Inl err) \<Rightarrow> (warning es @ l, [], Some err)
      | (l, Inr events_with_type) \<Rightarrow>
          (case type_names events_with_type of
             Inl err \<Rightarrow> (warning es @ l, [], Some err)
           | Inr ts \<Rightarrow>
               (case add_events_to_group (debug_raises py) events_with_type (set_order py ts) of
                  Inl err \<Rightarrow> (warning es @ l, [], Some err)
                | Inr events_groups \<Rightarrow>
                    (case print_groups (print_raises py) events_groups of
                       (out, r) \<Rightarrow> (warning es @ l, out, r)))))"
proof -
  have w: "(if length (filter accepted es) \<noteq> length es
            then [LogWarning ''Some events failed validation and were excluded.'']
            else []) = warning es"
    by (simp add: length_filter_accepted warning_def)
  have "lambda_try py event =
     (let w = (if length (filter accepted es) \<noteq> length es
               then [LogWarning ''Some events failed validation and were excluded.'']
               else [])
      in case add_types (filter accepted es) of
        (l, Inl err) \<Rightarrow> (w @ l, [], Some err)
      | (l, Inr events_with_type) \<Rightarrow>
          (case type_names events_with_type of
             Inl err \<Rightarrow> (w @ l, [], Some err)
           | Inr ts \<Rightarrow>
               (case add_events_to_group (debug_raises py) events_with_type (set_order py ts) of
                  Inl err \<Rightarrow> (w @ l, [], Some err)
                | Inr events_groups \<Rightarrow>
                    (case print_groups (print_raises py) events_groups of
                       (out, r) \<Rightarrow> (w @ l, out, r)))))"
    by (simp add: lambda_try_def assms(1,2) validate_events_dicts [OF assms(3)])
  then show ?thesis
    unfolding w Let_def .
qed

lemma lambda_try_not_dicts:
  assumes "getitem event ''events'' = Inr evs" and "py_iter evs = Inr es" and "\<not> list_all is_dict es"
  shows "lambda_try py event = ([], [], Some AttributeError)"
  using assms by (simp add: lambda_try_def validate_events_not_dict)

lemma lambda_try_not_str:
  assumes "getitem event ''events'' = Inr evs" and "py_iter evs = Inr es" and "list_all is_dict es"
    and "\<not> list_all sound es"
  shows "lambda_try py event = (warning es, [], Some AttributeError)"
proof -
  from assms(3,4) have "\<not> list_all str_name (filter accepted es)"
    using unsound_cases by blast
  moreover have "list_all accepted (filter accepted es)"
    by (simp add: list_all_iff)
  ultimately have "add_types (filter accepted es) = ([], Inl AttributeError)"
    by (rule add_types_not_str [rotated])
  then show ?thesis
    by (simp add: lambda_try_validated [OF assms(1,2,3)])
qed

lemma lambda_try_grouped:
  assumes "getitem event ''events'' = Inr evs" and "py_iter evs = Inr es" and "list_all sound es"
  shows "lambda_try py event =
     (case add_events_to_group (debug_raises py) (map with_type (filter accepted es))
             (set_order py (map type_of (filter accepted es))) of
        Inl err \<Rightarrow> (warning es, [], Some err)
      | Inr events_groups \<Rightarrow>
          (case print_groups (print_raises py) events_groups of
             (out, r) \<Rightarrow> (warning es, out, r)))"
proof -
  have a: "add_types (filter accepted es) = ([], Inr (map with_type (filter accepted es)))"
    using assms(3) by (simp add: add_types_sound list_all_filter_accepted_dict sound_str_names)
  have t: "type_names (map with_type (filter accepted es)) = Inr (map type_of (filter accepted es))"
    by (simp add: type_names_with_type list_all_filter_accepted_dict)
  show ?thesis
    by (simp add: lambda_try_validated [OF assms(1,2) sound_dicts [OF assms(3)]] a t
        split: sum.split prod.split)
qed

lemma lambda_try_format_raise:
  assumes "getitem event ''events'' = Inr evs" and "py_iter evs = Inr es" and "list_all sound es"
    and "\<not> formats_ok py es"
  shows "\<exists>f. lambda_try py event = (warning es, [], Some (Raised f))"
proof -
  from assms(4) obtain f where
    "add_events_to_group (debug_raises py) (map with_type (filter accepted es))
       (set_order py (map type_of (filter accepted es))) = Inl (Raised f)"
    using add_events_to_group_with_type_raise [OF list_all_filter_accepted_dict]
    unfolding formats_ok_def by blast
  then show ?thesis
    by (simp add: lambda_try_grouped [OF assms(1,2,3)])
qed

lemma lambda_try_printing:
  assumes "getitem event ''events'' = Inr evs" and "py_iter evs = Inr es" and "list_all sound es"
    and "formats_ok py es"
  shows "lambda_try py event =
     (case print_groups (print_raises py) (groups_of py es) of (out, r) \<Rightarrow> (warning es, out, r))"
proof -
  have "add_events_to_group (debug_raises py) (map with_type (filter accepted es))
       (set_order py (map type_of (filter accepted es))) = Inr (groups_of py es)"
    using assms(4) unfolding formats_ok_def groups_of_def
    by (simp add: add_events_to_group_with_type list_all_filter_accepted_dict)
  then show ?thesis
    by (simp add: lambda_try_grouped [OF assms(1,2,3)])
qed

lemma lambda_try_ok:
  assumes "getitem event ''events'' = Inr evs" and "py_iter evs = Inr es" and "list_all sound es"
    and "formats_ok py es" and "prints_ok py es"
  shows "lambda_try py event = (warning es, groups_of py es, None)"
  using assms(5) unfolding prints_ok_def
  by (simp add: lambda_try_printing [OF assms(1,2,3,4)] print_groups_ok)

lemma lambda_try_print_raise:
  assumes "getitem event ''events'' = Inr evs" and "py_iter evs = Inr es" and "list_all sound es"
    and "formats_ok py es" and "\<not> prints_ok py es"
  shows "\<exists>out f. lambda_try py event = (warning es, out, Some (Raised f)) \<and>
                 strict_prefix out (groups_of py es)"
proof -
  from assms(5) obtain out f where
    "print_groups (print_raises py) (groups_of py es) = (out, Some (Raised f))"
    and "strict_prefix out (groups_of py es)"
    using print_groups_raise unfolding prints_ok_def by blast
  then show ?thesis
    by (simp add: lambda_try_printing [OF assms(1,2,3,4)])
qed

section \<open>One try for the whole batch, and the order of the groups\<close>

lemma lambda_handler_ok:
  assumes "getitem event ''events'' = Inr evs" and "py_iter evs = Inr es" and "list_all sound es"
    and "formats_ok py es" and "prints_ok py es"
  shows "lambda_handler py event context =
           \<lparr>logged = warning es, printed = groups_of py es, returned = ''events processed''\<rparr>"
  by (simp add: lambda_handler_def lambda_try_ok [OF assms])

lemma lambda_handler_not_dicts:
  assumes "getitem event ''events'' = Inr evs" and "py_iter evs = Inr es" and "\<not> list_all is_dict es"
  shows "lambda_handler py event context =
           \<lparr>logged = [LogError ''An unexpected error occurred: '' AttributeError], printed = [],
            returned = ''Error: An unexpected error occurred''\<rparr>"
  by (simp add: lambda_handler_def lambda_try_not_dicts [OF assms])

lemma lambda_handler_not_str:
  assumes "getitem event ''events'' = Inr evs" and "py_iter evs = Inr es" and "list_all is_dict es"
    and "\<not> list_all sound es"
  shows "lambda_handler py event context =
           \<lparr>logged = warning es @ [LogError ''An unexpected error occurred: '' AttributeError],
            printed = [], returned = ''Error: An unexpected error occurred''\<rparr>"
  by (simp add: lambda_handler_def lambda_try_not_str [OF assms])

lemma lambda_handler_format_raise:
  assumes "getitem event ''events'' = Inr evs" and "py_iter evs = Inr es" and "list_all sound es"
    and "\<not> formats_ok py es"
  shows "\<exists>f. lambda_handler py event context =
           \<lparr>logged = warning es @ [LogError ''An unexpected error occurred: '' (Raised f)],
            printed = [], returned = ''Error: An unexpected error occurred''\<rparr>"
proof -
  from lambda_try_format_raise [OF assms] obtain f
    where "lambda_try py event = (warning es, [], Some (Raised f))" by blast
  then show ?thesis by (simp add: lambda_handler_def)
qed

lemma lambda_handler_print_raise:
  assumes "getitem event ''events'' = Inr evs" and "py_iter evs = Inr es" and "list_all sound es"
    and "formats_ok py es" and "\<not> prints_ok py es"
  shows "\<exists>out f. lambda_handler py event context =
           \<lparr>logged = warning es @ [LogError ''An unexpected error occurred: '' (Raised f)],
            printed = out, returned = ''Error: An unexpected error occurred''\<rparr> \<and>
           strict_prefix out (groups_of py es)"
proof -
  from lambda_try_print_raise [OF assms] obtain out f
    where "lambda_try py event = (warning es, out, Some (Raised f))"
      and "strict_prefix out (groups_of py es)" by blast
  then show ?thesis by (simp add: lambda_handler_def)
qed

lemma lambda_handler_failed:
  assumes "getitem event ''events'' = Inr evs" and "py_iter evs = Inr es"
    and "\<not> (list_all sound es \<and> formats_ok py es \<and> prints_ok py es)"
  shows "returned (lambda_handler py event context) = ''Error: An unexpected error occurred''"
proof (cases "list_all is_dict es")
  case False
  then show ?thesis by (simp add: lambda_handler_not_dicts [OF assms(1,2)])
next
  case d: True
  show ?thesis
  proof (cases "list_all sound es")
    case False
    then show ?thesis by (simp add: lambda_handler_not_str [OF assms(1,2) d])
  next
    case s: True
    show ?thesis
    proof (cases "formats_ok py es")
      case False
      with lambda_handler_format_raise [OF assms(1,2) s, of py "context"] show ?thesis by auto
    next
      case f: True
      with s assms(3) have "\<not> prints_ok py es" by simp
      from lambda_handler_print_raise [OF assms(1,2) s f this, of "context"] show ?thesis
        by auto
    qed
  qed
qed



text \<open>
  C6 (as the code has it). \<^verbatim>\<open>add_events_to_group\<close> returns the groups in the order of
  \<^verbatim>\<open>event_types\<close>, and each group holds the events of its type in their order in the
  input. In \<^verbatim>\<open>lambda_handler\<close> that order is the order in which \<^verbatim>\<open>list(set(...))\<close> lists
  the categories of the accepted records, and each printed group holds the accepted
  records of its category in batch order.
\<close>

theorem groups_in_given_order:
  "(\<forall>gs. add_events_to_group raises evs tys = Inr gs \<longrightarrow>
      map event_type gs = tys \<and>
      (\<forall>g\<in>set gs. events g = filter (has_type (event_type g)) evs \<and> subseq (events g) evs)) \<and>
   (getitem event ''events'' = Inr evs' \<and> py_iter evs' = Inr es \<and>
    returned (lambda_handler py event context) = ''events processed'' \<longrightarrow>
      map event_type (printed (lambda_handler py event context)) =
        set_order py (map type_of (filter accepted es)) \<and>
      (\<forall>g\<in>set (printed (lambda_handler py event context)).
         events g = map with_type (filter (\<lambda>e. type_of e = event_type g) (filter accepted es))))"
proof (intro conjI allI impI)
  fix gs assume "add_events_to_group raises evs tys = Inr gs"
  then have gs: "gs = map (\<lambda>t. \<lparr>event_type = t, events = filter (has_type t) evs\<rparr>) tys"
    by (rule add_events_to_group_result)
  show "map event_type gs = tys" by (simp add: gs comp_def)
  show "\<forall>g\<in>set gs. events g = filter (has_type (event_type g)) evs \<and> subseq (events g) evs"
    by (auto simp: gs)
next
  assume a: "getitem event ''events'' = Inr evs' \<and> py_iter evs' = Inr es \<and>
    returned (lambda_handler py event context) = ''events processed''"
  then have g: "getitem event ''events'' = Inr evs'" and i: "py_iter evs' = Inr es"
    and r: "returned (lambda_handler py event context) = ''events processed''" by simp_all
  have ok: "list_all sound es \<and> formats_ok py es \<and> prints_ok py es"
  proof (rule ccontr)
    assume "\<not> ?thesis"
    from lambda_handler_failed [OF g i this, of "context"] r show False by simp
  qed
  then have p: "printed (lambda_handler py event context) = groups_of py es"
    by (simp add: lambda_handler_ok [OF g i])
  show "map event_type (printed (lambda_handler py event context)) =
        set_order py (map type_of (filter accepted es))"
    by (simp add: p groups_of_def comp_def)
  show "\<forall>g\<in>set (printed (lambda_handler py event context)).
         events g = map with_type (filter (\<lambda>e. type_of e = event_type g) (filter accepted es))"
    by (auto simp: p groups_of_def)
qed


lemmas record_eval =
  sound_def is_dict_def accepted_def validate_event_def str_name_def warning_def
  formats_ok_def prints_ok_def groups_of_def type_of_def with_type_def has_type_def



theorem groups_in_given_order_witness:
  "add_events_to_group (\<lambda>e. None)
     [PDict [(''event_type'', PStr ''a''), (''event_id'', PInt 1)],
      PDict [(''event_type'', PStr ''b''), (''event_id'', PInt 2)],
      PDict [(''event_type'', PStr ''a''), (''event_id'', PInt 3)]] [''b'', ''a''] =
   Inr [\<lparr>event_type = ''b'', events = [PDict [(''event_type'', PStr ''b''), (''event_id'', PInt 2)]]\<rparr>,
        \<lparr>event_type = ''a'', events = [PDict [(''event_type'', PStr ''a''), (''event_id'', PInt 1)],
                                        PDict [(''event_type'', PStr ''a''), (''event_id'', PInt 3)]]\<rparr>] \<and>
   subseq [PDict [(''event_type'', PStr ''a''), (''event_id'', PInt 1)],
           PDict [(''event_type'', PStr ''a''), (''event_id'', PInt 3)]]
     [PDict [(''event_type'', PStr ''a''), (''event_id'', PInt 1)],
      PDict [(''event_type'', PStr ''b''), (''event_id'', PInt 2)],
      PDict [(''event_type'', PStr ''a''), (''event_id'', PInt 3)]] \<and>
   map event_type (printed (lambda_handler
       \<lparr>set_order = \<lambda>ts. rev (remdups ts), debug_raises = \<lambda>e. None, print_raises = \<lambda>g. None\<rparr>
       (PDict [(''events'', PList [PDict [(''name'', PStr ''user:created''), (''event_id'', PInt 1)],
                                   PDict [(''name'', PStr ''account:created''), (''event_id'', PInt 3)]])])
       ())) = [''account'', ''user'']"
proof -
  let ?evs = "[PDict [(''event_type'', PStr ''a''), (''event_id'', PInt 1)],
      PDict [(''event_type'', PStr ''b''), (''event_id'', PInt 2)],
      PDict [(''event_type'', PStr ''a''), (''event_id'', PInt 3)]]"
  let ?gs = "[\<lparr>event_type = ''b'', events = [PDict [(''event_type'', PStr ''b''), (''event_id'', PInt 2)]]\<rparr>,
        \<lparr>event_type = ''a'', events = [PDict [(''event_type'', PStr ''a''), (''event_id'', PInt 1)],
                                        PDict [(''event_type'', PStr ''a''), (''event_id'', PInt 3)]]\<rparr>]"
  let ?py = "\<lparr>set_order = \<lambda>ts. rev (remdups ts), debug_raises = \<lambda>e. None, print_raises = \<lambda>g. None\<rparr>"
  let ?es = "[PDict [(''name'', PStr ''user:created''), (''event_id'', PInt 1)],
              PDict [(''name'', PStr ''account:created''), (''event_id'', PInt 3)]]"
  let ?ev = "PDict [(''events'', PList ?es)]"
  have r: "add_events_to_group (\<lambda>e. None) ?evs [''b'', ''a''] = Inr ?gs"
    by (simp add: add_events_to_group_def group_dict_def)
  have g: "getitem ?ev ''events'' = Inr (PList ?es)" by simp
  have i: "py_iter (PList ?es) = Inr ?es" by simp
  have ok: "list_all sound ?es" "formats_ok ?py ?es" "prints_ok ?py ?es"
    by (simp_all add: record_eval)
  have p: "returned (lambda_handler ?py ?ev ()) = ''events processed''"
    by (simp add: lambda_handler_ok [OF g i ok])
  note th = groups_in_given_order [of "\<lambda>e. None" ?evs "[''b'', ''a'']" ?ev "PList ?es" ?es ?py "()"]
  have "\<forall>g\<in>set ?gs. events g = filter (has_type (event_type g)) ?evs \<and> subseq (events g) ?evs"
    using th [THEN conjunct1, THEN spec, THEN mp, OF r, THEN conjunct2] .
  then have s: "subseq [PDict [(''event_type'', PStr ''a''), (''event_id'', PInt 1)],
           PDict [(''event_type'', PStr ''a''), (''event_id'', PInt 3)]] ?evs"
    by simp
  have "map event_type (printed (lambda_handler ?py ?ev ())) =
          set_order ?py (map type_of (filter accepted ?es))"
    using th [THEN conjunct2, THEN mp, OF conjI [OF g conjI [OF i p]], THEN conjunct1] .
  then have o: "map event_type (printed (lambda_handler ?py ?ev ())) = [''account'', ''user'']"
    by (simp add: record_eval)
  show ?thesis using r s o by (intro conjI)
qed

text \<open>
  C6 as the specification words it fails in its first half: for the events of types
  \<^verbatim>\<open>user\<close>, then \<^verbatim>\<open>account\<close>, and \<^verbatim>\<open>event_types\<close> listing \<^verbatim>\<open>account\<close> before \<^verbatim>\<open>user\<close> (an
  order \<^verbatim>\<open>list(set(...))\<close> may give), the group of \<^verbatim>\<open>account\<close> comes first, against the
  first-seen order.
\<close>

theorem first_seen_order_counterexample:
  "add_events_to_group (\<lambda>e. None)
     [PDict [(''name'', PStr ''user:created''), (''event_id'', PInt 1), (''event_type'', PStr ''user'')],
      PDict [(''name'', PStr ''account:created''), (''event_id'', PInt 3), (''event_type'', PStr ''account'')]]
     [''account'', ''user''] =
   Inr [\<lparr>event_type = ''account'',
         events = [PDict [(''name'', PStr ''account:created''), (''event_id'', PInt 3), (''event_type'', PStr ''account'')]]\<rparr>,
        \<lparr>event_type = ''user'',
         events = [PDict [(''name'', PStr ''user:created''), (''event_id'', PInt 1), (''event_type'', PStr ''user'')]]\<rparr>]"
  by (simp add: add_events_to_group_def group_dict_def)

section \<open>Records that are not what the handler expects\<close>

text \<open>
  C5 (as the code has it). A record that is not a dict makes \<^verbatim>\<open>validate_event\<close> raise
  AttributeError, and an accepted record whose name is not a str makes \<^verbatim>\<open>add_type\<close>
  raise AttributeError: the exception leaves both functions. \<^verbatim>\<open>lambda_handler\<close> catches
  it for the batch as a whole: with such a record anywhere in the batch, no group is
  printed, the error is logged, and the result is the error string. There is no list of
  rejected records and no reason string.
\<close>

theorem malformed_record_raises:
  "(\<not> is_dict e \<longrightarrow> validate_event e = Inl AttributeError) \<and>
   (accepted e \<and> \<not> str_name e \<longrightarrow> add_type e = ([], Inl AttributeError)) \<and>
   (getitem event ''events'' = Inr evs \<and> py_iter evs = Inr es \<and> e \<in> set es \<and> \<not> sound e \<longrightarrow>
      returned (lambda_handler py event context) = ''Error: An unexpected error occurred'' \<and>
      printed (lambda_handler py event context) = [] \<and>
      last (logged (lambda_handler py event context)) =
        LogError ''An unexpected error occurred: '' AttributeError)"
proof (intro conjI impI)
  assume "\<not> is_dict e"
  then show "validate_event e = Inl AttributeError" by (rule validate_event_not_dict)
next
  assume "accepted e \<and> \<not> str_name e"
  then show "add_type e = ([], Inl AttributeError)" by (simp add: add_type_not_str)
next
  assume a: "getitem event ''events'' = Inr evs \<and> py_iter evs = Inr es \<and> e \<in> set es \<and> \<not> sound e"
  then have g: "getitem event ''events'' = Inr evs" and i: "py_iter evs = Inr es"
    and n: "\<not> list_all sound es" by (auto simp: list_all_iff)
  have "lambda_handler py event context =
          \<lparr>logged = (if list_all is_dict es then warning es else []) @
                     [LogError ''An unexpected error occurred: '' AttributeError],
           printed = [], returned = ''Error: An unexpected error occurred''\<rparr>"
  proof (cases "list_all is_dict es")
    case True
    then show ?thesis by (simp add: lambda_handler_not_str [OF g i True n])
  next
    case False
    then show ?thesis by (simp add: lambda_handler_not_dicts [OF g i False])
  qed
  then show "returned (lambda_handler py event context) = ''Error: An unexpected error occurred''"
    and "printed (lambda_handler py event context) = []"
    and "last (logged (lambda_handler py event context)) =
        LogError ''An unexpected error occurred: '' AttributeError"
    by simp_all
qed

theorem malformed_record_raises_witness:
  "validate_event (PStr ''oops'') = Inl AttributeError \<and>
   add_type (PDict [(''name'', PInt 7), (''event_id'', PInt 1)]) = ([], Inl AttributeError) \<and>
   returned (lambda_handler
       \<lparr>set_order = remdups, debug_raises = \<lambda>e. None, print_raises = \<lambda>g. None\<rparr>
       (PDict [(''events'', PList [PDict [(''name'', PStr ''user:created''), (''event_id'', PInt 1)],
                                   PStr ''oops''])]) ()) =
     ''Error: An unexpected error occurred'' \<and>
   printed (lambda_handler
       \<lparr>set_order = remdups, debug_raises = \<lambda>e. None, print_raises = \<lambda>g. None\<rparr>
       (PDict [(''events'', PList [PDict [(''name'', PStr ''user:created''), (''event_id'', PInt 1)],
                                   PStr ''oops''])]) ()) = []"
proof -
  let ?py = "\<lparr>set_order = remdups, debug_raises = \<lambda>e. None, print_raises = \<lambda>g. None\<rparr>"
  let ?u = "PDict [(''name'', PStr ''user:created''), (''event_id'', PInt 1)]"
  let ?n = "PDict [(''name'', PInt 7), (''event_id'', PInt 1)]"
  let ?ev = "PDict [(''events'', PList [?u, PStr ''oops''])]"
  note t1 = malformed_record_raises [of "PStr ''oops''" ?ev "PList [?u, PStr ''oops'']"
      "[?u, PStr ''oops'']" ?py "()"]
  note t2 = malformed_record_raises [of ?n ?ev "PList [?u, PStr ''oops'']"
      "[?u, PStr ''oops'']" ?py "()"]
  have "\<not> is_dict (PStr ''oops'')" by (simp add: is_dict_def)
  then have v: "validate_event (PStr ''oops'') = Inl AttributeError"
    using t1 [THEN conjunct1] by (rule rev_mp)
  have "accepted ?n \<and> \<not> str_name ?n" by (simp add: record_eval)
  then have a: "add_type ?n = ([], Inl AttributeError)"
    using t2 [THEN conjunct2, THEN conjunct1] by (rule rev_mp)
  have "getitem ?ev ''events'' = Inr (PList [?u, PStr ''oops'']) \<and>
        py_iter (PList [?u, PStr ''oops'']) = Inr [?u, PStr ''oops''] \<and>
        PStr ''oops'' \<in> set [?u, PStr ''oops''] \<and> \<not> sound (PStr ''oops'')"
    by (simp add: record_eval)
  then have "returned (lambda_handler ?py ?ev ()) = ''Error: An unexpected error occurred'' \<and>
      printed (lambda_handler ?py ?ev ()) = [] \<and>
      last (logged (lambda_handler ?py ?ev ())) =
        LogError ''An unexpected error occurred: '' AttributeError"
    using t1 [THEN conjunct2, THEN conjunct2] by (rule rev_mp)
  with v a show ?thesis by (intro conjI) simp_all
qed

text \<open>
  C5 as the specification words it fails: the str \<^verbatim>\<open>oops\<close> in place of a record makes
  \<^verbatim>\<open>validate_event\<close> raise, the record with the int 7 as name makes \<^verbatim>\<open>add_type\<close> raise, and
  a batch holding a good record and the int 42 is aborted as a whole, the good record
  included, with nothing recorded but the logged error.
\<close>

theorem malformed_record_counterexample:
  "validate_event (PStr ''oops'') = Inl AttributeError \<and>
   add_type (PDict [(''name'', PInt 7), (''event_id'', PInt 1)]) = ([], Inl AttributeError) \<and>
   lambda_handler \<lparr>set_order = remdups, debug_raises = \<lambda>e. None, print_raises = \<lambda>g. None\<rparr>
       (PDict [(''events'', PList [PDict [(''name'', PStr ''user:created''), (''event_id'', PInt 1)],
                                   PInt 42])]) () =
     \<lparr>logged = [LogError ''An unexpected error occurred: '' AttributeError],
      printed = [], returned = ''Error: An unexpected error occurred''\<rparr>"
proof -
  let ?py = "\<lparr>set_order = remdups, debug_raises = \<lambda>e. None, print_raises = \<lambda>g. None\<rparr>"
  let ?es = "[PDict [(''name'', PStr ''user:created''), (''event_id'', PInt 1)], PInt 42]"
  have v: "validate_event (PStr ''oops'') = Inl AttributeError"
    by (simp add: validate_event_def)
  have a: "add_type (PDict [(''name'', PInt 7), (''event_id'', PInt 1)]) = ([], Inl AttributeError)"
    by (simp add: add_type_def add_type_try_def)
  have g: "getitem (PDict [(''events'', PList ?es)]) ''events'' = Inr (PList ?es)" by simp
  have i: "py_iter (PList ?es) = Inr ?es" by simp
  have d: "\<not> list_all is_dict ?es" by (simp add: is_dict_def)
  show ?thesis
    using v a lambda_handler_not_dicts [OF g i d, of ?py "()"] by simp
qed

section \<open>Records the validation excludes\<close>

lemma warning_accepted: "warning (filter accepted es) = []"
  by (simp add: warning_def list_all_iff)

lemma lambda_try_without_rejected:
  assumes "getitem event ''events'' = Inr evs" and "py_iter evs = Inr es"
    and "getitem event' ''events'' = Inr evs'" and "py_iter evs' = Inr (filter accepted es)"
    and "list_all is_dict es"
  shows "lambda_try py event =
           (case lambda_try py event' of (l, out, r) \<Rightarrow> (warning es @ l, out, r))"
proof -
  have d: "list_all is_dict (filter accepted es)" by (rule list_all_filter_accepted_dict)
  show ?thesis
    by (simp add: lambda_try_validated [OF assms(1,2,5)] lambda_try_validated [OF assms(3,4) d]
        warning_accepted split: prod.split sum.split)
qed

text \<open>
  C3 (as the code has it). For a batch of dicts the validation keeps exactly the records
  \<^verbatim>\<open>validate_event\<close> accepts, in batch order, and the kept and the excluded records
  together number the batch. The excluded records are not handed back: the handler
  prints and returns what it prints and returns for the batch without them, and the
  only trace is one fixed warning in the log, logged when at least one record was
  excluded.
\<close>

theorem rejected_records_are_dropped:
  assumes "getitem event ''events'' = Inr evs" and "py_iter evs = Inr es"
    and "getitem event' ''events'' = Inr evs'" and "py_iter evs' = Inr (filter accepted es)"
    and "list_all is_dict es"
  shows "validate_events es = Inr (filter accepted es) \<and>
         length (filter accepted es) + length (filter (\<lambda>e. \<not> accepted e) es) = length es \<and>
         printed (lambda_handler py event context) = printed (lambda_handler py event' context) \<and>
         returned (lambda_handler py event context) = returned (lambda_handler py event' context) \<and>
         logged (lambda_handler py event context) =
           warning es @ logged (lambda_handler py event' context)"
proof -
  have v: "validate_events es = Inr (filter accepted es)"
    using assms(5) by (rule validate_events_dicts)
  have n: "length (filter accepted es) + length (filter (\<lambda>e. \<not> accepted e) es) = length es"
    by (rule sum_length_filter_compl)
  obtain l out r where t: "lambda_try py event' = (l, out, r)"
    by (cases "lambda_try py event'") auto
  then have t': "lambda_try py event = (warning es @ l, out, r)"
    by (simp add: lambda_try_without_rejected [OF assms])
  have "printed (lambda_handler py event context) = printed (lambda_handler py event' context) \<and>
        returned (lambda_handler py event context) = returned (lambda_handler py event' context) \<and>
        logged (lambda_handler py event context) =
           warning es @ logged (lambda_handler py event' context)"
    by (simp add: lambda_handler_def t t' split: option.split error.split)
  with v n show ?thesis by simp
qed

theorem rejected_records_are_dropped_witness:
  "validate_events [PDict [(''name'', PStr ''user:created''), (''event_id'', PInt 1)],
                    PDict [(''name'', PStr ''order:placed'')]] =
     Inr [PDict [(''name'', PStr ''user:created''), (''event_id'', PInt 1)]] \<and>
   lambda_handler \<lparr>set_order = remdups, debug_raises = \<lambda>e. None, print_raises = \<lambda>g. None\<rparr>
     (PDict [(''events'', PList [PDict [(''name'', PStr ''user:created''), (''event_id'', PInt 1)],
                                 PDict [(''name'', PStr ''order:placed'')]])]) () =
   \<lparr>logged = [LogWarning ''Some events failed validation and were excluded.''],
    printed = [\<lparr>event_type = ''user'',
                events = [PDict [(''name'', PStr ''user:created''), (''event_id'', PInt 1),
                                 (''event_type'', PStr ''user'')]]\<rparr>],
    returned = ''events processed''\<rparr>"
proof -
  let ?py = "\<lparr>set_order = remdups, debug_raises = \<lambda>e. None, print_raises = \<lambda>g. None\<rparr>"
  let ?u = "PDict [(''name'', PStr ''user:created''), (''event_id'', PInt 1)]"
  let ?o = "PDict [(''name'', PStr ''order:placed'')]"
  let ?ev = "PDict [(''events'', PList [?u, ?o])]"
  let ?ev' = "PDict [(''events'', PList [?u])]"
  have f: "filter accepted [?u, ?o] = [?u]" by (simp add: record_eval)
  have g: "getitem ?ev ''events'' = Inr (PList [?u, ?o])" by simp
  have i: "py_iter (PList [?u, ?o]) = Inr [?u, ?o]" by simp
  have g': "getitem ?ev' ''events'' = Inr (PList [?u])" by simp
  have i': "py_iter (PList [?u]) = Inr (filter accepted [?u, ?o])" unfolding f by simp
  have i'': "py_iter (PList [?u]) = Inr [?u]" by simp
  have d: "list_all is_dict [?u, ?o]" by (simp add: is_dict_def)
  have ok: "list_all sound [?u]" "formats_ok ?py [?u]" "prints_ok ?py [?u]"
    by (simp_all add: record_eval)
  have r': "lambda_handler ?py ?ev' () =
      \<lparr>logged = [],
       printed = [\<lparr>event_type = ''user'',
                events = [PDict [(''name'', PStr ''user:created''), (''event_id'', PInt 1),
                                 (''event_type'', PStr ''user'')]]\<rparr>],
       returned = ''events processed''\<rparr>"
    by (simp add: lambda_handler_ok [OF g' i'' ok] record_eval)
  have w: "warning [?u, ?o] = [LogWarning ''Some events failed validation and were excluded.'']"
    by (simp add: record_eval)
  note th = rejected_records_are_dropped [OF g i g' i' d, of ?py "()"]
  from th have v: "validate_events [?u, ?o] = Inr [?u]" unfolding f by simp
  from th have "printed (lambda_handler ?py ?ev ()) = printed (lambda_handler ?py ?ev' ())"
    and "returned (lambda_handler ?py ?ev ()) = returned (lambda_handler ?py ?ev' ())"
    and "logged (lambda_handler ?py ?ev ()) = warning [?u, ?o] @ logged (lambda_handler ?py ?ev' ())"
    by simp_all
  then have "lambda_handler ?py ?ev () =
      \<lparr>logged = [LogWarning ''Some events failed validation and were excluded.''],
       printed = [\<lparr>event_type = ''user'',
                events = [PDict [(''name'', PStr ''user:created''), (''event_id'', PInt 1),
                                 (''event_type'', PStr ''user'')]]\<rparr>],
       returned = ''events processed''\<rparr>"
    by (cases "lambda_handler ?py ?ev ()") (simp add: r' w)
  with v show ?thesis by (intro conjI)
qed

text \<open>
  C3 as the specification words it fails in its second half: two batches that differ
  only in the record that is excluded (one without \<^verbatim>\<open>event_id\<close>, the other without
  \<^verbatim>\<open>name\<close>) leave the same log, print the same group and return the same string, so
  nothing about the excluded record reaches the caller.
\<close>

theorem rejected_records_counterexample:
  "lambda_handler \<lparr>set_order = remdups, debug_raises = \<lambda>e. None, print_raises = \<lambda>g. None\<rparr>
     (PDict [(''events'', PList [PDict [(''name'', PStr ''user:created''), (''event_id'', PInt 1)],
                                 PDict [(''name'', PStr ''order:placed'')]])]) () =
   \<lparr>logged = [LogWarning ''Some events failed validation and were excluded.''],
    printed = [\<lparr>event_type = ''user'',
                events = [PDict [(''name'', PStr ''user:created''), (''event_id'', PInt 1),
                                 (''event_type'', PStr ''user'')]]\<rparr>],
    returned = ''events processed''\<rparr> \<and>
   lambda_handler \<lparr>set_order = remdups, debug_raises = \<lambda>e. None, print_raises = \<lambda>g. None\<rparr>
     (PDict [(''events'', PList [PDict [(''name'', PStr ''user:created''), (''event_id'', PInt 1)],
                                 PDict [(''event_id'', PInt 10)]])]) () =
   \<lparr>logged = [LogWarning ''Some events failed validation and were excluded.''],
    printed = [\<lparr>event_type = ''user'',
                events = [PDict [(''name'', PStr ''user:created''), (''event_id'', PInt 1),
                                 (''event_type'', PStr ''user'')]]\<rparr>],
    returned = ''events processed''\<rparr>"
proof -
  let ?py = "\<lparr>set_order = remdups, debug_raises = \<lambda>e. None, print_raises = \<lambda>g. None\<rparr>"
  let ?u = "PDict [(''name'', PStr ''user:created''), (''event_id'', PInt 1)]"
  let ?o = "PDict [(''name'', PStr ''order:placed'')]"
  let ?x = "PDict [(''event_id'', PInt 10)]"
  have g1: "getitem (PDict [(''events'', PList [?u, ?o])]) ''events'' = Inr (PList [?u, ?o])" by simp
  have i1: "py_iter (PList [?u, ?o]) = Inr [?u, ?o]" by simp
  have ok1: "list_all sound [?u, ?o]" "formats_ok ?py [?u, ?o]" "prints_ok ?py [?u, ?o]"
    by (simp_all add: record_eval)
  have g2: "getitem (PDict [(''events'', PList [?u, ?x])]) ''events'' = Inr (PList [?u, ?x])" by simp
  have i2: "py_iter (PList [?u, ?x]) = Inr [?u, ?x]" by simp
  have ok2: "list_all sound [?u, ?x]" "formats_ok ?py [?u, ?x]" "prints_ok ?py [?u, ?x]"
    by (simp_all add: record_eval)
  show ?thesis
    by (simp add: lambda_handler_ok [OF g1 i1 ok1] lambda_handler_ok [OF g2 i2 ok2] record_eval)
qed

section \<open>What each stage does to the records\<close>

lemma add_type_try_Inl: "add_type_try e = Inl err \<Longrightarrow> \<exists>err'. snd (add_type e) = Inl err'"
  by (cases err) (simp_all add: add_type_def)

lemma add_type_try_fails:
  assumes "\<not> (is_dict e \<and> str_name e)"
  shows "\<exists>err. add_type_try e = Inl err"
proof (cases "getitem e ''name''")
  case (Inl err)
  then show ?thesis by (simp add: add_type_try_def)
next
  case (Inr v)
  then have "is_dict e" by (cases e) (simp_all add: is_dict_def)
  with assms Inr have "\<forall>s. v \<noteq> PStr s" by (auto simp: str_name_def)
  then have "split_method v CHR '':'' = Inl AttributeError" by (cases v) simp_all
  with Inr show ?thesis by (simp add: add_type_try_def)
qed

lemma add_type_Inr:
  assumes "snd (add_type e) = Inr e'"
  shows "is_dict e \<and> str_name e \<and> e' = with_type e"
proof (cases "is_dict e \<and> str_name e")
  case True
  with add_type_sound [of e] assms show ?thesis by simp
next
  case False
  then obtain err where "add_type_try e = Inl err" using add_type_try_fails by blast
  then obtain err' where "snd (add_type e) = Inl err'" using add_type_try_Inl by blast
  with assms show ?thesis by simp
qed

lemma getitem_with_type:
  "is_dict e \<Longrightarrow> k \<noteq> ''event_type'' \<Longrightarrow> getitem (with_type e) k = getitem e k"
  by (cases e) (simp_all add: is_dict_def with_type_def update_conv')


lemma with_type_not_dict: "\<not> is_dict e \<Longrightarrow> with_type e = e"
  by (cases e) (simp_all add: is_dict_def with_type_def)

lemma is_dict_with_type: "is_dict (with_type e) = is_dict e"
  by (cases e) (simp_all add: is_dict_def with_type_def)

lemma getitem_name_with_type: "getitem (with_type e) ''name'' = getitem e ''name''"
  by (cases "is_dict e") (simp_all add: getitem_with_type with_type_not_dict)

lemma str_name_with_type: "str_name (with_type e) = str_name e"
  by (simp add: str_name_def getitem_name_with_type)

lemma type_of_with_type: "type_of (with_type e) = type_of e"
  by (simp add: type_of_def getitem_name_with_type)

lemma keys_update_event_type:
  "(''name'' \<in> fst ` set (AList.update ''event_type'' v kvs)) = (''name'' \<in> fst ` set kvs)"
  "(''event_id'' \<in> fst ` set (AList.update ''event_type'' v kvs)) = (''event_id'' \<in> fst ` set kvs)"
  by (simp_all add: dom_update)

lemma accepted_with_type: "accepted (with_type e) = accepted e"
proof (cases e)
  case (PDict kvs)
  then show ?thesis
    by (simp add: accepted_def with_type_def validate_event_def keys_update_event_type)
qed (simp_all add: with_type_def)

lemma with_type_idem: "with_type (with_type e) = with_type e"
proof (cases e)
  case (PDict kvs)
  have t: "type_of (PDict (AList.update ''event_type'' (PStr (type_of e)) kvs)) = type_of e"
    using type_of_with_type [of e] by (simp add: PDict with_type_def)
  have "with_type (with_type e) =
          PDict (AList.update ''event_type'' (PStr (type_of e))
                   (AList.update ''event_type'' (PStr (type_of e)) kvs))"
    by (simp add: PDict with_type_def t [unfolded PDict])
  then show ?thesis by (simp add: PDict with_type_def)
qed (simp_all add: with_type_def)




section \<open>Running the handler twice\<close>

lemma left_by_run_cases: "left_by_run e e' \<Longrightarrow> e' = e \<or> e' = with_type e"
  using add_type_Inr by (auto simp: left_by_run_def)

lemma left_by_run_same:
  assumes "left_by_run e e'"
  shows "is_dict e' = is_dict e" and "accepted e' = accepted e" and "str_name e' = str_name e"
    and "type_of e' = type_of e" and "with_type e' = with_type e"
  using left_by_run_cases [OF assms]
  by (auto simp: is_dict_with_type accepted_with_type str_name_with_type type_of_with_type
      with_type_idem)

lemma left_by_run_sound: "left_by_run e e' \<Longrightarrow> sound e' = sound e"
  by (simp add: sound_def left_by_run_same)

lemma list_all_left_by_run:
  assumes "list_all2 left_by_run es es'" and "\<And>e e'. left_by_run e e' \<Longrightarrow> P e' = P e"
  shows "list_all P es' = list_all P es"
  using assms(1) by (induction rule: list_all2_induct) (simp_all add: assms(2))

lemma map_filter_left_by_run:
  assumes "list_all2 left_by_run es es'"
    and "\<And>e e'. left_by_run e e' \<Longrightarrow> P e' = P e" and "\<And>e e'. left_by_run e e' \<Longrightarrow> f e' = f e"
  shows "map f (filter P es') = map f (filter P es)"
  using assms(1) by (induction rule: list_all2_induct) (simp_all add: assms(2,3))

lemma lambda_try_second_run:
  assumes "getitem event ''events'' = Inr evs" and "py_iter evs = Inr es"
    and "getitem event' ''events'' = Inr evs'" and "py_iter evs' = Inr es'"
    and "list_all2 left_by_run es es'"
  shows "lambda_try py event' = lambda_try py event"
proof -
  note r = assms(5)
  have d: "list_all is_dict es' = list_all is_dict es"
    using r by (rule list_all_left_by_run) (erule left_by_run_same)
  have s: "list_all sound es' = list_all sound es"
    using r by (rule list_all_left_by_run) (erule left_by_run_sound)
  have "list_all accepted es' = list_all accepted es"
    using r by (rule list_all_left_by_run) (erule left_by_run_same)
  then have w: "warning es' = warning es" by (simp add: warning_def)
  have m: "map with_type (filter accepted es') = map with_type (filter accepted es)"
    using r by (rule map_filter_left_by_run) (erule left_by_run_same)+
  have t: "map type_of (filter accepted es') = map type_of (filter accepted es)"
    using r by (rule map_filter_left_by_run) (erule left_by_run_same)+
  show ?thesis
  proof (cases "list_all is_dict es")
    case False
    with d show ?thesis
      by (simp add: lambda_try_not_dicts [OF assms(1,2)] lambda_try_not_dicts [OF assms(3,4)])
  next
    case True
    with d have d': "list_all is_dict es'" by simp
    show ?thesis
    proof (cases "list_all sound es")
      case False
      with s have "\<not> list_all sound es'" by simp
      with False show ?thesis
        by (simp add: lambda_try_not_str [OF assms(1,2) True] lambda_try_not_str [OF assms(3,4) d'] w)
    next
      case sound: True
      with s have "list_all sound es'" by simp
      with sound show ?thesis
        by (simp only: lambda_try_grouped [OF assms(1,2)] lambda_try_grouped [OF assms(3,4)] w m t)
    qed
  qed
qed

lemma groups_of_mset:
  assumes "distinct (set_order py ts)" and "set (set_order py ts) = set ts"
    and "distinct (ord' ts)" and "set (ord' ts) = set ts" and "ts = map type_of (filter accepted es)"
  shows "mset (groups_of (py\<lparr>set_order := ord'\<rparr>) es) = mset (groups_of py es)"
proof -
  have "mset (ord' ts) = mset (set_order py ts)"
    using assms(1-4) by (simp add: set_eq_iff_mset_eq_distinct [symmetric])
  then have "mset (map G (ord' ts)) = mset (map G (set_order py ts))" for G :: "string \<Rightarrow> group"
    by simp
  then show ?thesis by (simp add: groups_of_def assms(5) del: mset_map)
qed

lemma prints_ok_set_order:
  assumes "mset (groups_of (py\<lparr>set_order := ord'\<rparr>) es) = mset (groups_of py es)"
  shows "prints_ok (py\<lparr>set_order := ord'\<rparr>) es = prints_ok py es"
proof -
  from assms have "set (groups_of (py\<lparr>set_order := ord'\<rparr>) es) = set (groups_of py es)"
    by (rule mset_eq_setD)
  then show ?thesis by (simp add: prints_ok_def list_all_iff)
qed

lemma formats_ok_set_order: "formats_ok (py\<lparr>set_order := ord'\<rparr>) es = formats_ok py es"
  by (simp add: formats_ok_def)

text \<open>
  C7 (as the code has it). Running the handler again on the batch as the first run left
  it (each record untouched or with its \<^verbatim>\<open>event_type\<close> set), in the same interpreter,
  gives the same log, the same printed groups in the same order and the same result.
  Between two runs that differ in the order in which \<^verbatim>\<open>list(set(...))\<close> lists the
  categories, the result is the same and, when the runs succeed, the printed groups are
  the same groups with the same contents and the log is the same; the order of the
  groups follows that listing, with no concurrency involved.
\<close>

theorem handler_twice:
  assumes "getitem event ''events'' = Inr evs" and "py_iter evs = Inr es"
  shows "(getitem event' ''events'' = Inr evs' \<and> py_iter evs' = Inr es' \<and>
          list_all2 left_by_run es es' \<longrightarrow>
            lambda_handler py event' context = lambda_handler py event context) \<and>
         (distinct (set_order py (map type_of (filter accepted es))) \<and>
          set (set_order py (map type_of (filter accepted es))) =
            set (map type_of (filter accepted es)) \<and>
          distinct (ord' (map type_of (filter accepted es))) \<and>
          set (ord' (map type_of (filter accepted es))) = set (map type_of (filter accepted es)) \<longrightarrow>
            returned (lambda_handler (py\<lparr>set_order := ord'\<rparr>) event context) =
              returned (lambda_handler py event context) \<and>
            (returned (lambda_handler py event context) = ''events processed'' \<longrightarrow>
               mset (printed (lambda_handler (py\<lparr>set_order := ord'\<rparr>) event context)) =
                 mset (printed (lambda_handler py event context)) \<and>
               logged (lambda_handler (py\<lparr>set_order := ord'\<rparr>) event context) =
                 logged (lambda_handler py event context)))"
proof (intro conjI impI)
  assume "getitem event' ''events'' = Inr evs' \<and> py_iter evs' = Inr es' \<and>
          list_all2 left_by_run es es'"
  then have "lambda_try py event' = lambda_try py event"
    using lambda_try_second_run [OF assms] by blast
  then show "lambda_handler py event' context = lambda_handler py event context"
    by (simp add: lambda_handler_def)
next
  let ?py' = "py\<lparr>set_order := ord'\<rparr>"
  assume "distinct (set_order py (map type_of (filter accepted es))) \<and>
          set (set_order py (map type_of (filter accepted es))) =
            set (map type_of (filter accepted es)) \<and>
          distinct (ord' (map type_of (filter accepted es))) \<and>
          set (ord' (map type_of (filter accepted es))) = set (map type_of (filter accepted es))"
  then have m: "mset (groups_of ?py' es) = mset (groups_of py es)"
    by (intro groups_of_mset) simp_all
  have p: "prints_ok ?py' es = prints_ok py es" using m by (rule prints_ok_set_order)
  have f: "formats_ok ?py' es = formats_ok py es" by (rule formats_ok_set_order)
  show "returned (lambda_handler ?py' event context) = returned (lambda_handler py event context)"
  proof (cases "list_all sound es \<and> formats_ok py es \<and> prints_ok py es")
    case True
    then show ?thesis
      by (simp add: lambda_handler_ok [OF assms] p f)
  next
    case False
    then have "\<not> (list_all sound es \<and> formats_ok ?py' es \<and> prints_ok ?py' es)"
      by (simp add: p f)
    with False show ?thesis
      by (simp add: lambda_handler_failed [OF assms])
  qed
  assume r: "returned (lambda_handler py event context) = ''events processed''"
  have ok: "list_all sound es \<and> formats_ok py es \<and> prints_ok py es"
  proof (rule ccontr)
    assume "\<not> ?thesis"
    from lambda_handler_failed [OF assms this, of "context"] r show False by simp
  qed
  then have ok': "list_all sound es \<and> formats_ok ?py' es \<and> prints_ok ?py' es"
    by (simp add: p f)
  show "mset (printed (lambda_handler ?py' event context)) =
          mset (printed (lambda_handler py event context))"
    using ok ok' by (simp add: lambda_handler_ok [OF assms] m)
  show "logged (lambda_handler ?py' event context) = logged (lambda_handler py event context)"
    using ok ok' by (simp add: lambda_handler_ok [OF assms])
qed

theorem handler_twice_witness:
  "lambda_handler \<lparr>set_order = remdups, debug_raises = \<lambda>e. None, print_raises = \<lambda>g. None\<rparr>
     (PDict [(''events'', PList
        [PDict [(''name'', PStr ''user:created''), (''event_id'', PInt 1), (''event_type'', PStr ''user'')],
         PDict [(''name'', PStr ''account:created''), (''event_id'', PInt 3)]])]) () =
   lambda_handler \<lparr>set_order = remdups, debug_raises = \<lambda>e. None, print_raises = \<lambda>g. None\<rparr>
     (PDict [(''events'', PList
        [PDict [(''name'', PStr ''user:created''), (''event_id'', PInt 1)],
         PDict [(''name'', PStr ''account:created''), (''event_id'', PInt 3)]])]) () \<and>
   returned (lambda_handler
     (\<lparr>set_order = remdups, debug_raises = \<lambda>e. None, print_raises = \<lambda>g. None\<rparr>
        \<lparr>set_order := \<lambda>ts. rev (remdups ts)\<rparr>)
     (PDict [(''events'', PList
        [PDict [(''name'', PStr ''user:created''), (''event_id'', PInt 1)],
         PDict [(''name'', PStr ''account:created''), (''event_id'', PInt 3)]])]) ()) =
     ''events processed'' \<and>
   mset (printed (lambda_handler
     (\<lparr>set_order = remdups, debug_raises = \<lambda>e. None, print_raises = \<lambda>g. None\<rparr>
        \<lparr>set_order := \<lambda>ts. rev (remdups ts)\<rparr>)
     (PDict [(''events'', PList
        [PDict [(''name'', PStr ''user:created''), (''event_id'', PInt 1)],
         PDict [(''name'', PStr ''account:created''), (''event_id'', PInt 3)]])]) ())) =
   mset (printed (lambda_handler
     \<lparr>set_order = remdups, debug_raises = \<lambda>e. None, print_raises = \<lambda>g. None\<rparr>
     (PDict [(''events'', PList
        [PDict [(''name'', PStr ''user:created''), (''event_id'', PInt 1)],
         PDict [(''name'', PStr ''account:created''), (''event_id'', PInt 3)]])]) ()))"
proof -
  let ?py = "\<lparr>set_order = remdups, debug_raises = \<lambda>e. None, print_raises = \<lambda>g. None\<rparr>"
  let ?ord = "\<lambda>ts::string list. rev (remdups ts)"
  let ?u = "PDict [(''name'', PStr ''user:created''), (''event_id'', PInt 1)]"
  let ?u' = "PDict [(''name'', PStr ''user:created''), (''event_id'', PInt 1),
                    (''event_type'', PStr ''user'')]"
  let ?a = "PDict [(''name'', PStr ''account:created''), (''event_id'', PInt 3)]"
  let ?ev = "PDict [(''events'', PList [?u, ?a])]"
  let ?ev' = "PDict [(''events'', PList [?u', ?a])]"
  have g: "getitem ?ev ''events'' = Inr (PList [?u, ?a])" by simp
  have i: "py_iter (PList [?u, ?a]) = Inr [?u, ?a]" by simp
  note th = handler_twice [OF g i, of ?ev' "PList [?u', ?a]" "[?u', ?a]" ?py "()" ?ord]
  have m: "map_of [(''name'', PStr ''user:created''), (''event_id'', PInt 1)] ''name'' =
             Some (PStr ''user:created'')" by simp
  have "snd (add_type ?u) = Inr ?u'" by (simp add: add_type_dict [OF m])
  then have l: "list_all2 left_by_run [?u, ?a] [?u', ?a]" by (simp add: left_by_run_def)
  have "getitem ?ev' ''events'' = Inr (PList [?u', ?a]) \<and>
        py_iter (PList [?u', ?a]) = Inr [?u', ?a] \<and> list_all2 left_by_run [?u, ?a] [?u', ?a]"
    using l by simp
  then have a: "lambda_handler ?py ?ev' () = lambda_handler ?py ?ev ()"
    using th [THEN conjunct1] by (rule rev_mp)
  have "distinct (set_order ?py (map type_of (filter accepted [?u, ?a]))) \<and>
        set (set_order ?py (map type_of (filter accepted [?u, ?a]))) =
          set (map type_of (filter accepted [?u, ?a])) \<and>
        distinct (?ord (map type_of (filter accepted [?u, ?a]))) \<and>
        set (?ord (map type_of (filter accepted [?u, ?a]))) =
          set (map type_of (filter accepted [?u, ?a]))"
    by simp
  then have b: "returned (lambda_handler (?py\<lparr>set_order := ?ord\<rparr>) ?ev ()) =
              returned (lambda_handler ?py ?ev ()) \<and>
            (returned (lambda_handler ?py ?ev ()) = ''events processed'' \<longrightarrow>
               mset (printed (lambda_handler (?py\<lparr>set_order := ?ord\<rparr>) ?ev ())) =
                 mset (printed (lambda_handler ?py ?ev ())) \<and>
               logged (lambda_handler (?py\<lparr>set_order := ?ord\<rparr>) ?ev ()) =
                 logged (lambda_handler ?py ?ev ()))"
    using th [THEN conjunct2] by (rule rev_mp)
  have ok: "list_all sound [?u, ?a]" "formats_ok ?py [?u, ?a]" "prints_ok ?py [?u, ?a]"
    by (simp_all add: record_eval)
  have r: "returned (lambda_handler ?py ?ev ()) = ''events processed''"
    by (simp add: lambda_handler_ok [OF g i ok])
  from b r have r': "returned (lambda_handler (?py\<lparr>set_order := ?ord\<rparr>) ?ev ()) = ''events processed''"
    by simp
  from b r have p: "mset (printed (lambda_handler (?py\<lparr>set_order := ?ord\<rparr>) ?ev ())) =
                 mset (printed (lambda_handler ?py ?ev ()))"
    by simp
  show ?thesis using a r' p by (intro conjI)
qed

text \<open>
  C7 as the specification words it fails in its last part: with nothing concurrent, the
  same batch is printed as \<^verbatim>\<open>user\<close>, \<^verbatim>\<open>account\<close> under one listing order of the set of
  categories and as \<^verbatim>\<open>account\<close>, \<^verbatim>\<open>user\<close> under another.
\<close>

theorem group_order_counterexample:
  "map event_type (printed (lambda_handler
     \<lparr>set_order = remdups, debug_raises = \<lambda>e. None, print_raises = \<lambda>g. None\<rparr>
     (PDict [(''events'', PList
        [PDict [(''name'', PStr ''user:created''), (''event_id'', PInt 1)],
         PDict [(''name'', PStr ''account:created''), (''event_id'', PInt 3)]])]) ())) =
     [''user'', ''account''] \<and>
   map event_type (printed (lambda_handler
     \<lparr>set_order = \<lambda>ts. rev (remdups ts), debug_raises = \<lambda>e. None, print_raises = \<lambda>g. None\<rparr>
     (PDict [(''events'', PList
        [PDict [(''name'', PStr ''user:created''), (''event_id'', PInt 1)],
         PDict [(''name'', PStr ''account:created''), (''event_id'', PInt 3)]])]) ())) =
     [''account'', ''user'']"
proof -
  let ?py1 = "\<lparr>set_order = remdups, debug_raises = \<lambda>e. None, print_raises = \<lambda>g. None\<rparr>"
  let ?py2 = "\<lparr>set_order = \<lambda>ts. rev (remdups ts), debug_raises = \<lambda>e. None,
               print_raises = \<lambda>g. None\<rparr>"
  let ?es = "[PDict [(''name'', PStr ''user:created''), (''event_id'', PInt 1)],
              PDict [(''name'', PStr ''account:created''), (''event_id'', PInt 3)]]"
  have g: "getitem (PDict [(''events'', PList ?es)]) ''events'' = Inr (PList ?es)" by simp
  have i: "py_iter (PList ?es) = Inr ?es" by simp
  have ok1: "list_all sound ?es" "formats_ok ?py1 ?es" "prints_ok ?py1 ?es"
    by (simp_all add: record_eval)
  have ok2: "list_all sound ?es" "formats_ok ?py2 ?es" "prints_ok ?py2 ?es"
    by (simp_all add: record_eval)
  show ?thesis
    by (simp add: lambda_handler_ok [OF g i ok1] lambda_handler_ok [OF g i ok2] record_eval)
qed

end
